theory Spec2Isabelle
  imports Main "HOL-Library.Log_Nat"
begin

section \<open>Strings and characters of the source language\<close>

text \<open>
  The parser of \<^verbatim>\<open>src/parser.js\<close> works on JavaScript strings. A string is modelled as
  a \<^typ>\<open>string\<close> whose characters are the code units \<open>0..255\<close> (ASCII and Latin-1);
  \<open>of_char c\<close> is the code unit. The character classes below are the classes of the
  regular expressions of the source, restricted to that range; a text with a code unit
  above 255 is outside the model.
\<close>

definition code :: "char \<Rightarrow> nat" where
  "code c = of_char c"

text \<open>\<^verbatim>\<open>[0-9]\<close>\<close>

definition isDigit :: "char \<Rightarrow> bool" where
  "isDigit c \<longleftrightarrow> 48 \<le> code c \<and> code c \<le> 57"

text \<open>\<^verbatim>\<open>[A-Z]\<close>\<close>

definition isUpperAZ :: "char \<Rightarrow> bool" where
  "isUpperAZ c \<longleftrightarrow> 65 \<le> code c \<and> code c \<le> 90"

text \<open>\<^verbatim>\<open>[a-z]\<close>\<close>

definition isLowerAZ :: "char \<Rightarrow> bool" where
  "isLowerAZ c \<longleftrightarrow> 97 \<le> code c \<and> code c \<le> 122"

text \<open>\<^verbatim>\<open>[a-z0-9]\<close>\<close>

definition isKeyChar :: "char \<Rightarrow> bool" where
  "isKeyChar c \<longleftrightarrow> isLowerAZ c \<or> isDigit c"

text \<open>
  \<^verbatim>\<open>\s\<close>, which is also what \<^verbatim>\<open>String.prototype.trim\<close> strips: TAB, LF, VT, FF, CR,
  space and the no-break space \<open>0xA0\<close>.
\<close>

definition isSpace :: "char \<Rightarrow> bool" where
  "isSpace c \<longleftrightarrow> (9 \<le> code c \<and> code c \<le> 13) \<or> code c = 32 \<or> code c = 160"

text \<open>
  \<^verbatim>\<open>String.prototype.toLowerCase\<close> on one code unit: \<open>A-Z\<close> and the Latin-1 capitals
  \<open>0xC0-0xDE\<close> (without the multiplication sign \<open>0xD7\<close>) move up by 32.
\<close>

definition lowerChar :: "char \<Rightarrow> char" where
  "lowerChar c =
     (if isUpperAZ c \<or> (192 \<le> code c \<and> code c \<le> 222 \<and> code c \<noteq> 215)
      then char_of (code c + 32) else c)"

definition toLowerCase :: "string \<Rightarrow> string" where
  "toLowerCase s = map lowerChar s"

text \<open>Removing the leading and the trailing run of \<open>P\<close> characters.\<close>

definition stripBoth :: "(char \<Rightarrow> bool) \<Rightarrow> string \<Rightarrow> string" where
  "stripBoth P s = rev (dropWhile P (rev (dropWhile P s)))"

text \<open>\<^verbatim>\<open>s.trim()\<close>\<close>

definition trim :: "string \<Rightarrow> string" where
  "trim s = stripBoth isSpace s"

text \<open>
  \<^verbatim>\<open>s.replace(/[P]+/g, r)\<close> for a character class \<open>P\<close> and a one-character
  replacement: every maximal run of \<open>P\<close> characters becomes one \<open>r\<close>.
\<close>

function replaceRuns :: "(char \<Rightarrow> bool) \<Rightarrow> char \<Rightarrow> string \<Rightarrow> string" where
  "replaceRuns P r [] = []"
| "replaceRuns P r (c # cs) =
     (if P c then r # replaceRuns P r (dropWhile P cs) else c # replaceRuns P r cs)"
  by pat_completeness auto
termination
  by (relation "measure (\<lambda>(P, r, s). length s)")
     (auto simp: length_dropWhile_le less_Suc_eq_le)

text \<open>\<^verbatim>\<open>s.replace(/\s+/g, " ")\<close>\<close>

definition collapseWs :: "string \<Rightarrow> string" where
  "collapseWs s = replaceRuns isSpace (CHR '' '') s"

section \<open>Key Normalizer\<close>

text \<open>
  \<^verbatim>\<open>.replace(/\([^)]*\)/g, "")\<close>: scanning from the left, an opening parenthesis that has
  a closing one somewhere after it is removed together with everything up to the first
  closing parenthesis; an opening parenthesis with no closing one after it stays.
\<close>

function removeParens :: "string \<Rightarrow> string" where
  "removeParens [] = []"
| "removeParens (c # cs) =
     (if c = CHR ''('' \<and> CHR '')'' \<in> set cs
      then removeParens (tl (dropWhile (\<lambda>d. d \<noteq> CHR '')'') cs))
      else c # removeParens cs)"
  by pat_completeness auto
termination
proof (relation "measure length", goal_cases)
  case 1
  show ?case by simp
next
  case (2 c cs)
  have "length (tl (dropWhile (\<lambda>d. d \<noteq> CHR '')'') cs)) \<le> length cs"
    using length_dropWhile_le [of "\<lambda>d. d \<noteq> CHR '')''" cs] by simp
  then show ?case by simp
next
  case (3 c cs)
  show ?case by simp
qed

text \<open>\<^verbatim>\<open>.replace(/^_+|_+$/g, "")\<close>: the leading run of underscores and the trailing one.\<close>

definition stripUnderscores :: "string \<Rightarrow> string" where
  "stripUnderscores s = stripBoth (\<lambda>c. c = CHR ''_'') s"

definition normalizeKey :: "string \<Rightarrow> string" where
  "normalizeKey name =
     trim (stripUnderscores
       (replaceRuns (\<lambda>c. \<not> isKeyChar c) (CHR ''_'') (removeParens (toLowerCase name))))"

section \<open>Numbers\<close>

text \<open>
  A JavaScript Number is \<open>NaN\<close>, an infinity or a finite double; a finite double is
  modelled by the rational it denotes (both zeros are \<open>Fin 0\<close>). \<open>jsLess\<close> is the
  operator \<^verbatim>\<open><\<close> on two Numbers: every comparison with \<open>NaN\<close> is false.
\<close>

datatype jsnum = NaN | Fin rat | PosInf | NegInf

fun jsLess :: "jsnum \<Rightarrow> jsnum \<Rightarrow> bool" where
  "jsLess NaN y = False"
| "jsLess x NaN = False"
| "jsLess (Fin a) (Fin b) = (a < b)"
| "jsLess (Fin a) PosInf = True"
| "jsLess NegInf (Fin b) = True"
| "jsLess NegInf PosInf = True"
| "jsLess x y = False"

definition pow2 :: "int \<Rightarrow> rat" where
  "pow2 e = (if 0 \<le> e then 2 ^ nat e else 1 / 2 ^ nat (- e))"

definition pow10 :: "int \<Rightarrow> rat" where
  "pow10 e = (if 0 \<le> e then 10 ^ nat e else 1 / 10 ^ nat (- e))"

text \<open>Rounding to the nearest integer, a tie to the even one.\<close>

definition roundHalfEven :: "rat \<Rightarrow> int" where
  "roundHalfEven q =
     (let f = \<lfloor>q\<rfloor>; d = q - of_int f
      in if d < 1 / 2 then f else if 1 / 2 < d then f + 1 else if even f then f else f + 1)"

text \<open>For \<open>0 < q\<close>, the exponent \<open>e\<close> with \<open>2 ^ e \<le> q < 2 ^ (e + 1)\<close>.\<close>

definition floorLog2 :: "rat \<Rightarrow> int" where
  "floorLog2 q =
     (let (a, b) = quotient_of q; e = bitlen a - bitlen b
      in if pow2 e \<le> q then e else e - 1)"

text \<open>
  The Number value for a rational: the nearest double (53 bits of significand, the
  least exponent \<open>-1074\<close>, ties to even), an infinity from \<open>2 ^ 1024\<close> on.
\<close>

definition toDouble :: "rat \<Rightarrow> jsnum" where
  "toDouble q =
     (if q = 0 then Fin 0
      else let a = \<bar>q\<bar>;
               k = max (floorLog2 a - 52) (- 1074);
               r = of_int (roundHalfEven (a / pow2 k)) * pow2 k
           in if pow2 1024 \<le> r then (if q < 0 then NegInf else PosInf)
              else Fin (if q < 0 then - r else r))"

text \<open>
  \<^verbatim>\<open>Number(str)\<close> on a string, after the grammar \<open>StringNumericLiteral\<close> of the
  language: surrounding white space is ignored, the empty string is \<open>0\<close>, a decimal
  literal may have a sign, a fraction and an exponent, a binary, octal or hexadecimal
  literal has neither, and anything else is \<open>NaN\<close>.
\<close>

definition hexDigitVal :: "char \<Rightarrow> nat option" where
  "hexDigitVal c =
     (if isDigit c then Some (code c - 48)
      else if 97 \<le> code c \<and> code c \<le> 102 then Some (code c - 87)
      else if 65 \<le> code c \<and> code c \<le> 70 then Some (code c - 55)
      else None)"

fun radixValue :: "nat \<Rightarrow> nat \<Rightarrow> string \<Rightarrow> nat option" where
  "radixValue b acc [] = Some acc"
| "radixValue b acc (c # cs) =
     (case hexDigitVal c of
        None \<Rightarrow> None
      | Some d \<Rightarrow> if d < b then radixValue b (b * acc + d) cs else None)"

definition decimalValue :: "string \<Rightarrow> nat" where
  "decimalValue ds = foldl (\<lambda>a c. 10 * a + (code c - 48)) 0 ds"

definition exponentPart :: "string \<Rightarrow> int option" where
  "exponentPart r =
     (case r of
        [] \<Rightarrow> Some 0
      | c # r1 \<Rightarrow>
          if c = CHR ''e'' \<or> c = CHR ''E'' then
            (let signed = (r1 \<noteq> [] \<and> (hd r1 = CHR ''+'' \<or> hd r1 = CHR ''-''));
                 ds = (if signed then tl r1 else r1)
             in if ds \<noteq> [] \<and> list_all isDigit ds
                then Some (if signed \<and> hd r1 = CHR ''-'' then - int (decimalValue ds)
                           else int (decimalValue ds))
                else None)
          else None)"

definition unsignedDecimal :: "string \<Rightarrow> rat option" where
  "unsignedDecimal s =
     (let ip = takeWhile isDigit s;
          r1 = dropWhile isDigit s;
          hasDot = (r1 \<noteq> [] \<and> hd r1 = CHR ''.'');
          fp = (if hasDot then takeWhile isDigit (tl r1) else []);
          r2 = (if hasDot then dropWhile isDigit (tl r1) else r1)
      in if ip = [] \<and> fp = [] then None
         else case exponentPart r2 of
                None \<Rightarrow> None
              | Some e \<Rightarrow> Some (of_nat (decimalValue (ip @ fp)) * pow10 (e - int (length fp))))"

definition nonDecimalLiteral :: "string \<Rightarrow> nat option" where
  "nonDecimalLiteral t =
     (case t of
        z # x # ds \<Rightarrow>
          if z = CHR ''0'' \<and> ds \<noteq> [] then
            (if x = CHR ''x'' \<or> x = CHR ''X'' then radixValue 16 0 ds
             else if x = CHR ''o'' \<or> x = CHR ''O'' then radixValue 8 0 ds
             else if x = CHR ''b'' \<or> x = CHR ''B'' then radixValue 2 0 ds
             else None)
          else None
      | _ \<Rightarrow> None)"

definition strUnsigned :: "string \<Rightarrow> jsnum" where
  "strUnsigned s =
     (if s = ''Infinity'' then PosInf
      else case unsignedDecimal s of None \<Rightarrow> NaN | Some q \<Rightarrow> toDouble q)"

fun negate :: "jsnum \<Rightarrow> jsnum" where
  "negate NaN = NaN"
| "negate (Fin a) = Fin (- a)"
| "negate PosInf = NegInf"
| "negate NegInf = PosInf"

definition jsNumber :: "string \<Rightarrow> jsnum" where
  "jsNumber str =
     (let t = trim str
      in if t = [] then Fin 0
         else case nonDecimalLiteral t of
                Some n \<Rightarrow> toDouble (of_nat n)
              | None \<Rightarrow>
                  if hd t = CHR ''-'' then negate (strUnsigned (tl t))
                  else if hd t = CHR ''+'' then strUnsigned (tl t)
                  else strUnsigned t)"

section \<open>Reference-Range Parser\<close>

text \<open>
  \<^verbatim>\<open>[0-9]+(?:\.[0-9]+)?\<close> at the start of a string: the digits, then a dot with digits after
  it when there is one, and the rest of the string. Giving back digits never helps the
  patterns that use it, for what follows the number in them is no digit and no dot.
\<close>

definition numberPrefix :: "string \<Rightarrow> (string \<times> string) option" where
  "numberPrefix s =
     (let ip = takeWhile isDigit s; r = dropWhile isDigit s
      in if ip = [] then None
         else if r \<noteq> [] \<and> hd r = CHR ''.'' \<and> takeWhile isDigit (tl r) \<noteq> []
              then Some (ip @ CHR ''.'' # takeWhile isDigit (tl r), dropWhile isDigit (tl r))
              else Some (ip, r))"

text \<open>\<^verbatim>\<open>/^[0-9]+(?:\.[0-9]+)?$/.test(t)\<close>\<close>

definition isNumberToken :: "string \<Rightarrow> bool" where
  "isNumberToken t = (case numberPrefix t of Some (n, []) \<Rightarrow> True | _ \<Rightarrow> False)"

text \<open>\<^verbatim>\<open>s.match(/^([<>]=?)\s*([0-9]+(?:\.[0-9]+)?)$/)\<close>, as a test.\<close>

definition matchIneq :: "string \<Rightarrow> bool" where
  "matchIneq s =
     (case s of
        [] \<Rightarrow> False
      | c # r \<Rightarrow>
          (c = CHR ''<'' \<or> c = CHR ''>'') \<and>
          isNumberToken
            (dropWhile isSpace (if r \<noteq> [] \<and> hd r = CHR ''='' then tl r else r)))"

text \<open>
  \<^verbatim>\<open>s.match(/^([0-9]+(?:\.[0-9]+)?)\s*-\s*([0-9]+(?:\.[0-9]+)?)$/)\<close>: the two groups.
\<close>

definition matchRange :: "string \<Rightarrow> (string \<times> string) option" where
  "matchRange s =
     (case numberPrefix s of
        None \<Rightarrow> None
      | Some (a, r1) \<Rightarrow>
          (case dropWhile isSpace r1 of
             [] \<Rightarrow> None
           | c # r2 \<Rightarrow>
               if c = CHR ''-'' then
                 (case numberPrefix (dropWhile isSpace r2) of
                    Some (b, []) \<Rightarrow> Some (a, b)
                  | _ \<Rightarrow> None)
               else None))"

text \<open>
  \<open>parseRef\<close> returns the object \<^verbatim>\<open>{ refLow, refHigh, refText }\<close>, here a triple; \<open>None\<close>
  is \<^verbatim>\<open>null\<close>. The argument is \<^verbatim>\<open>null\<close> or a string.
\<close>

definition parseRef :: "string option \<Rightarrow> jsnum option \<times> jsnum option \<times> string option" where
  "parseRef refStr =
     (case refStr of
        None \<Rightarrow> (None, None, None)
      | Some str \<Rightarrow>
          if str = [] then (None, None, None)
          else let s = trim str
               in if matchIneq s then (None, None, Some s)
                  else case matchRange s of
                         Some (a, b) \<Rightarrow> (Some (jsNumber a), Some (jsNumber b), None)
                       | None \<Rightarrow> (None, None, Some s))"

section \<open>Flag Computer\<close>

text \<open>
  \<open>computeFlag\<close> tests the type of its arguments, so it is modelled on the values of
  the language: \<^verbatim>\<open>undefined\<close>, \<^verbatim>\<open>null\<close>, a boolean, a Number, a string or an object
  (of which nothing is looked at).
\<close>

datatype jsval = JUndefined | JNull | JBool bool | JNumber jsnum | JString string | JObject

datatype flagT = L | H

definition computeFlag :: "jsval \<Rightarrow> jsval \<Rightarrow> jsval \<Rightarrow> jsval \<Rightarrow> flagT option" where
  "computeFlag v lo hi txt =
     (case v of
        JNumber x \<Rightarrow>
          if x = NaN then None
          else if (case lo of JNumber l \<Rightarrow> jsLess x l | _ \<Rightarrow> False) then Some L
          else if (case hi of JNumber h \<Rightarrow> jsLess h x | _ \<Rightarrow> False) then Some H
          else None
      | _ \<Rightarrow> None)"

definition numberOrNull :: "jsnum option \<Rightarrow> jsval" where
  "numberOrNull x = (case x of None \<Rightarrow> JNull | Some n \<Rightarrow> JNumber n)"

definition stringOrNull :: "string option \<Rightarrow> jsval" where
  "stringOrNull x = (case x of None \<Rightarrow> JNull | Some s \<Rightarrow> JString s)"

section \<open>Line Classifier\<close>

text \<open>
  \<^verbatim>\<open>caps >= Math.min(8, s.length * 0.5)\<close> is a comparison of Numbers; \<open>s.length\<close> is at
  most 45 there, so the product is exact and the comparison is the one of rationals.
\<close>

definition looksLikePanelHeader :: "string \<Rightarrow> bool" where
  "looksLikePanelHeader line =
     (if line = [] then False
      else let s = trim line
           in if length s < 4 \<or> 45 < length s then False
              else if list_ex isDigit s then False
              else let caps = length (filter isUpperAZ s)
                   in min 8 (rat_of_nat (length s) * (1 / 2)) \<le> rat_of_nat caps)"

section \<open>Measurement-Line Parser\<close>

text \<open>The object a line parses to; the driver adds the field \<open>panel\<close>.\<close>

record measurement =
  key :: string
  name :: string
  mvalue :: jsnum
  unit :: "string option"
  refLow :: "jsnum option"
  refHigh :: "jsnum option"
  refText :: "string option"
  flag :: "flagT option"
  rawLine :: string

record panelMeasurement = measurement +
  panel :: string

text \<open>\<^verbatim>\<open>s.split(" ")\<close>: the pieces between single spaces; never the empty list.\<close>

fun splitSpace :: "string \<Rightarrow> string list" where
  "splitSpace [] = [[]]"
| "splitSpace (c # cs) =
     (if c = CHR '' '' then [] # splitSpace cs
      else case splitSpace cs of [] \<Rightarrow> [[c]] | t # ts \<Rightarrow> (c # t) # ts)"

text \<open>\<^verbatim>\<open>ts.join(" ")\<close>\<close>

fun joinSpace :: "string list \<Rightarrow> string" where
  "joinSpace [] = []"
| "joinSpace [t] = t"
| "joinSpace (t # ts) = t @ CHR '' '' # joinSpace ts"

text \<open>
  The loop over \<open>tokens[1..]\<close>: the tokens still to read, then the unit tokens and the
  reference tokens collected so far. A token is the last one when none is left after it.
\<close>

definition isRefStart :: "string \<Rightarrow> bool \<Rightarrow> bool" where
  "isRefStart t isLast \<longleftrightarrow>
     CHR ''-'' \<in> set t \<or> (t \<noteq> [] \<and> hd t = CHR ''<'') \<or> (t \<noteq> [] \<and> hd t = CHR ''>'') \<or>
     (isNumberToken t \<and> isLast)"

fun splitUnitRef :: "string list \<Rightarrow> string list \<Rightarrow> string list \<Rightarrow> string list \<times> string list" where
  "splitUnitRef [] unitTokens refTokens = (unitTokens, refTokens)"
| "splitUnitRef (t # ts) unitTokens refTokens =
     (if \<not> isRefStart t (ts = []) \<and> refTokens = []
      then splitUnitRef ts (unitTokens @ [t]) refTokens
      else splitUnitRef ts unitTokens (refTokens @ [t]))"

text \<open>\<^verbatim>\<open>str || null\<close>\<close>

definition orNull :: "string \<Rightarrow> string option" where
  "orNull str = (if str = [] then None else Some str)"

text \<open>
  \<open>parseMeasurementLine\<close> returns the object or \<^verbatim>\<open>null\<close>. The match of
  \<^verbatim>\<open>/([0-9]+(?:\.[0-9]+)?)/\<close> is used for its index only, which is the place of the
  first digit. \<open>tokens[0]\<close> always exists, for \<open>split\<close> gives at least one piece
  (\<open>splitSpace_nonempty\<close> below): the case of no token is never taken.
\<close>

definition parseMeasurementLine :: "string \<Rightarrow> measurement option" where
  "parseMeasurementLine line =
     (let s = trim (collapseWs line)
      in if s = [] then None
         else if \<not> list_ex isDigit s then None
         else let valueIdx = length (takeWhile (\<lambda>c. \<not> isDigit c) s);
                  namePart = trim (take valueIdx s)
              in if namePart = [] then None
                 else let afterValue = trim (drop valueIdx s)
                      in case splitSpace afterValue of
                           [] \<Rightarrow> None
                         | t0 # ts \<Rightarrow>
                             let v = jsNumber t0
                             in if v = NaN then None
                                else let (unitTokens, refTokens) = splitUnitRef ts [] [];
                                         unitStr = orNull (trim (joinSpace unitTokens));
                                         refStr = orNull (trim (joinSpace refTokens));
                                         (lo, hi, txt) = parseRef refStr;
                                         fl = computeFlag (JNumber v) (numberOrNull lo)
                                                (numberOrNull hi) (stringOrNull txt)
                                     in Some \<lparr> key = normalizeKey namePart, name = namePart,
                                               mvalue = v, unit = unitStr, refLow = lo,
                                               refHigh = hi, refText = txt, flag = fl,
                                               rawLine = s \<rparr>)"

section \<open>Report Parser\<close>

text \<open>
  \<^verbatim>\<open>rawText.split(/\r?\n/)\<close>: a line feed, with the carriage return just before it when
  there is one, separates two pieces; the empty text has one, empty, piece.
\<close>

fun splitLines :: "string \<Rightarrow> string list" where
  "splitLines [] = [[]]"
| "splitLines (c # cs) =
     (if c = CHR 0x0A then [] # splitLines cs
      else if c = CHR 0x0D \<and> cs \<noteq> [] \<and> hd cs = CHR 0x0A then [] # splitLines (tl cs)
      else case splitLines cs of [] \<Rightarrow> [[c]] | l # ls \<Rightarrow> (c # l) # ls)"

text \<open>\<^verbatim>\<open>{ ...m, panel }\<close>\<close>

definition withPanel :: "measurement \<Rightarrow> string \<Rightarrow> panelMeasurement" where
  "withPanel m p = measurement.extend m (panelMeasurement.fields p)"

text \<open>The loop of \<open>parseReportText\<close>: the lines left, the current panel, the output so far.\<close>

fun parseLoop :: "string list \<Rightarrow> string \<Rightarrow> panelMeasurement list \<Rightarrow> panelMeasurement list" where
  "parseLoop [] curPanel measurements = measurements"
| "parseLoop (line # rest) curPanel measurements =
     (if looksLikePanelHeader line then parseLoop rest (trim (collapseWs line)) measurements
      else case parseMeasurementLine line of
             None \<Rightarrow> parseLoop rest curPanel measurements
           | Some m \<Rightarrow> parseLoop rest curPanel (measurements @ [withPanel m curPanel]))"

definition reportLines :: "string \<Rightarrow> string list" where
  "reportLines rawText = filter (\<lambda>l. l \<noteq> []) (map trim (splitLines rawText))"

definition parseReportText :: "string \<Rightarrow> panelMeasurement list" where
  "parseReportText rawText = parseLoop (reportLines rawText) ''General'' []"

section \<open>Collection-Timestamp Extractor\<close>

text \<open>
  The two patterns of \<open>extractCollectedAt\<close> are matched by hand. Each piece below
  takes the text at the current position and gives the text after the piece, or fails.
  The character classes that follow one another in the patterns are disjoint, so the
  greedy choice is the only one that can succeed and no other split has to be tried.
\<close>












section \<open>Predicates of the statements\<close>

text \<open>Every \<open>P\<close> character of the string is an \<open>r\<close> that no \<open>P\<close> character follows.\<close>

fun singleRuns :: "(char \<Rightarrow> bool) \<Rightarrow> char \<Rightarrow> string \<Rightarrow> bool" where
  "singleRuns P r [] = True"
| "singleRuns P r [c] = (P c \<longrightarrow> c = r)"
| "singleRuns P r (c # d # cs) = ((P c \<longrightarrow> c = r \<and> \<not> P d) \<and> singleRuns P r (d # cs))"

text \<open>\<^verbatim>\<open>[a-z0-9_]\<close>\<close>

definition isKeyOrUnderscore :: "char \<Rightarrow> bool" where
  "isKeyOrUnderscore c \<longleftrightarrow> isKeyChar c \<or> c = CHR ''_''"

text \<open>
  The panel in force after the lines \<open>ls\<close>, from the panel \<open>p\<close>: the normalized text of
  the last line of \<open>ls\<close> that is classified as a header, and \<open>p\<close> when there is none.
\<close>

definition panelAfter :: "string \<Rightarrow> string list \<Rightarrow> string" where
  "panelAfter p ls =
     (case filter looksLikePanelHeader (rev ls) of [] \<Rightarrow> p | h # _ \<Rightarrow> trim (collapseWs h))"

text \<open>The records a line gives under the panel \<open>p\<close>: none for a header.\<close>

definition lineRecords :: "string \<Rightarrow> string \<Rightarrow> panelMeasurement list" where
  "lineRecords l p =
     (if looksLikePanelHeader l then []
      else case parseMeasurementLine l of None \<Rightarrow> [] | Some m \<Rightarrow> [withPanel m p])"


text \<open>The text before the first digit of the line, trimmed.\<close>

definition nameText :: "string \<Rightarrow> string" where
  "nameText s = trim (takeWhile (\<lambda>c. \<not> isDigit c) s)"

text \<open>The first token of the value segment: from the first digit to the next space.\<close>

definition firstToken :: "string \<Rightarrow> string" where
  "firstToken s = takeWhile (\<lambda>c. c \<noteq> CHR '' '') (dropWhile (\<lambda>c. \<not> isDigit c) s)"


section \<open>Stripping both ends\<close>

lemma stripBoth_decomp:
  "dropWhile P s = stripBoth P s @ rev (takeWhile P (rev (dropWhile P s)))"
proof -
  have "rev (dropWhile P s) = takeWhile P (rev (dropWhile P s)) @ dropWhile P (rev (dropWhile P s))"
    by simp
  then have "rev (rev (dropWhile P s)) =
      rev (dropWhile P (rev (dropWhile P s))) @ rev (takeWhile P (rev (dropWhile P s)))"
    by (metis rev_append)
  then show ?thesis by (simp add: stripBoth_def)
qed

lemma stripBoth_segment: "\<exists>a b. s = a @ stripBoth P s @ b"
proof -
  have "s = takeWhile P s @ dropWhile P s" by simp
  then have "s = takeWhile P s @ stripBoth P s @ rev (takeWhile P (rev (dropWhile P s)))"
    using stripBoth_decomp [of P s] by simp
  then show ?thesis by blast
qed

lemma set_stripBoth: "set (stripBoth P s) \<subseteq> set s"
proof -
  obtain a b where "s = a @ stripBoth P s @ b" using stripBoth_segment by blast
  then have "set s = set a \<union> set (stripBoth P s) \<union> set b" by (metis set_append Un_assoc)
  then show ?thesis by blast
qed

lemma stripBoth_last: "stripBoth P s \<noteq> [] \<Longrightarrow> \<not> P (last (stripBoth P s))"
  unfolding stripBoth_def
  by (metis Nil_is_rev_conv hd_dropWhile last_rev)

lemma stripBoth_hd: 
  assumes "stripBoth P s \<noteq> []" shows "\<not> P (hd (stripBoth P s))"
proof -
  have d: "dropWhile P s = stripBoth P s @ rev (takeWhile P (rev (dropWhile P s)))"
    by (rule stripBoth_decomp)
  then have ne: "dropWhile P s \<noteq> []" using assms by (metis Nil_is_append_conv)
  have "hd (dropWhile P s) = hd (stripBoth P s)"
    using d assms by (metis hd_append2)
  then show ?thesis using hd_dropWhile [OF ne] by simp
qed

lemma stripBoth_id:
  assumes "s = [] \<or> (\<not> P (hd s) \<and> \<not> P (last s))"
  shows "stripBoth P s = s"
proof (cases "s = []")
  case True then show ?thesis by (simp add: stripBoth_def)
next
  case False
  then have h: "\<not> P (hd s)" and l: "\<not> P (last s)" using assms by auto
  have 1: "dropWhile P s = s" using False h by (cases s) auto
  have "rev s \<noteq> []" using False by simp
  moreover have "\<not> P (hd (rev s))" using l False by (simp add: hd_rev)
  ultimately have 2: "dropWhile P (rev s) = rev s" by (cases "rev s") auto
  show ?thesis by (simp add: stripBoth_def 1 2)
qed

lemma stripBoth_none: 
  assumes "\<forall>c\<in>set s. \<not> P c" shows "stripBoth P s = s"
proof (rule stripBoth_id, cases "s = []")
  case True then show "s = [] \<or> (\<not> P (hd s) \<and> \<not> P (last s))" by simp
next
  case False
  then have "hd s \<in> set s" "last s \<in> set s" by simp_all
  then show "s = [] \<or> (\<not> P (hd s) \<and> \<not> P (last s))" using assms by blast
qed

lemma stripBoth_idem: "stripBoth P (stripBoth P s) = stripBoth P s"
  by (rule stripBoth_id) (metis stripBoth_hd stripBoth_last)

section \<open>The key normalizer's result\<close>

lemma set_replaceRuns:
  "c \<in> set (replaceRuns P r s) \<Longrightarrow> c = r \<or> (\<not> P c \<and> c \<in> set s)"
proof (induction P r s rule: replaceRuns.induct)
  case (1 P r)
  then show ?case by simp
next
  case (2 P r d ds)
  show ?case
  proof (cases "P d")
    case True
    with 2 have "c = r \<or> c = r \<or> (\<not> P c \<and> c \<in> set (dropWhile P ds))" by auto
    then show ?thesis using set_dropWhileD by fastforce
  next
    case False
    with 2 show ?thesis by auto
  qed
qed

lemma dropWhile_hd_cases:
  "dropWhile P s = [] \<or> (\<exists>d ds. dropWhile P s = d # ds \<and> \<not> P d)"
  by (metis hd_dropWhile list.sel(1) neq_Nil_conv)

lemma singleRuns_replaceRuns: "P r \<Longrightarrow> singleRuns P r (replaceRuns P r s)"
proof (induction P r s rule: replaceRuns.induct)
  case (1 P r)
  then show ?case by simp
next
  case (2 P r c cs)
  show ?case
  proof (cases "P c")
    case True
    have ih: "singleRuns P r (replaceRuns P r (dropWhile P cs))" using 2 True by simp
    have e: "replaceRuns P r (c # cs) = r # replaceRuns P r (dropWhile P cs)"
      using True by simp
    from dropWhile_hd_cases [of P cs] show ?thesis
    proof
      assume n: "dropWhile P cs = []"
      show ?thesis unfolding e n by simp
    next
      assume "\<exists>d ds. dropWhile P cs = d # ds \<and> \<not> P d"
      then obtain d ds where d: "dropWhile P cs = d # ds" "\<not> P d" by blast
      show ?thesis unfolding e d(1) using ih [unfolded d(1)] d(2) by simp
    qed
  next
    case False
    have ih: "singleRuns P r (replaceRuns P r cs)" using 2 False by simp
    show ?thesis
    proof (cases "replaceRuns P r cs")
      case Nil
      then show ?thesis using False by simp
    next
      case (Cons e es)
      then show ?thesis using False ih by simp
    qed
  qed
qed

lemma singleRuns_fix: "P r \<Longrightarrow> singleRuns P r s \<Longrightarrow> replaceRuns P r s = s"
  by (induction P r s rule: singleRuns.induct) auto

lemma singleRuns_append:
  "singleRuns P r (a @ b) \<Longrightarrow> singleRuns P r a \<and> singleRuns P r b"
proof (induction P r a rule: singleRuns.induct)
  case (1 P r)
  then show ?case by simp
next
  case (2 P r c)
  then show ?case by (cases b) auto
next
  case (3 P r c d cs)
  then show ?case by auto
qed

lemma singleRuns_stripBoth: "singleRuns P r s \<Longrightarrow> singleRuns P r (stripBoth Q s)"
proof -
  assume a: "singleRuns P r s"
  obtain x y where "s = x @ stripBoth Q s @ y" using stripBoth_segment by blast
  then have "singleRuns P r (x @ stripBoth Q s @ y)" using a by simp
  then show ?thesis using singleRuns_append by blast
qed

lemma removeParens_none: "CHR ''('' \<notin> set s \<Longrightarrow> removeParens s = s"
  by (induction s) auto

lemma code_underscore: "code (CHR ''_'') = 95"
  by (simp add: code_def)

lemma code_paren: "code (CHR ''('') = 40"
  by (simp add: code_def)

lemma keyish_not_space: "isKeyOrUnderscore c \<Longrightarrow> \<not> isSpace c"
  by (auto simp: isKeyOrUnderscore_def isKeyChar_def isLowerAZ_def isDigit_def isSpace_def code_underscore)

lemma keyish_not_paren: "isKeyOrUnderscore c \<Longrightarrow> c \<noteq> CHR ''(''"
  by (auto simp: isKeyOrUnderscore_def isKeyChar_def isLowerAZ_def isDigit_def code_paren)

lemma keyish_lower: "isKeyOrUnderscore c \<Longrightarrow> lowerChar c = c"
  by (auto simp: isKeyOrUnderscore_def isKeyChar_def isLowerAZ_def isDigit_def lowerChar_def isUpperAZ_def code_underscore)

lemma underscore_not_key: "\<not> isKeyChar (CHR ''_'')"
  by (simp add: isKeyChar_def isLowerAZ_def isDigit_def code_underscore)

lemma normalizeKey_chars: "c \<in> set (normalizeKey x) \<Longrightarrow> isKeyOrUnderscore c"
proof -
  assume "c \<in> set (normalizeKey x)"
  then have "c \<in> set (replaceRuns (\<lambda>c. \<not> isKeyChar c) (CHR ''_'') (removeParens (toLowerCase x)))"
    unfolding normalizeKey_def trim_def stripUnderscores_def
    using set_stripBoth by blast
  then show ?thesis using set_replaceRuns [of c "\<lambda>c. \<not> isKeyChar c"] 
    by (auto simp: isKeyOrUnderscore_def)
qed

lemma normalizeKey_eq:
  "normalizeKey x = stripUnderscores
       (replaceRuns (\<lambda>c. \<not> isKeyChar c) (CHR ''_'') (removeParens (toLowerCase x)))"
proof -
  let ?R = "replaceRuns (\<lambda>c. \<not> isKeyChar c) (CHR ''_'') (removeParens (toLowerCase x))"
  have "\<forall>c\<in>set (stripUnderscores ?R). \<not> isSpace c"
  proof
    fix c assume "c \<in> set (stripUnderscores ?R)"
    then have "c \<in> set ?R" unfolding stripUnderscores_def using set_stripBoth by blast
    then have "isKeyOrUnderscore c" using set_replaceRuns [of c "\<lambda>c. \<not> isKeyChar c"] 
      by (auto simp: isKeyOrUnderscore_def)
    then show "\<not> isSpace c" by (rule keyish_not_space)
  qed
  then show ?thesis unfolding normalizeKey_def trim_def by (rule stripBoth_none)
qed

lemma normalizeKey_ends:
  "normalizeKey x \<noteq> [] \<Longrightarrow> hd (normalizeKey x) \<noteq> CHR ''_'' \<and> last (normalizeKey x) \<noteq> CHR ''_''"
  unfolding normalizeKey_eq stripUnderscores_def
  using stripBoth_hd [of "\<lambda>c. c = CHR ''_''"] stripBoth_last [of "\<lambda>c. c = CHR ''_''"] by blast

section \<open>The loop of the report parser\<close>

lemma parseLoop_acc: "parseLoop ls p acc = acc @ parseLoop ls p []"
proof (induction ls arbitrary: p acc)
  case Nil
  then show ?case by simp
next
  case (Cons l ls)
  show ?case
  proof (cases "looksLikePanelHeader l")
    case True
    then show ?thesis using Cons [of "trim (collapseWs l)" acc] by simp
  next
    case False
    show ?thesis
    proof (cases "parseMeasurementLine l")
      case None
      then show ?thesis using False Cons [of p acc] by simp
    next
      case (Some m)
      then show ?thesis
        using False Cons [of p "acc @ [withPanel m p]"] Cons [of p "[withPanel m p]"] by simp
    qed
  qed
qed

lemma panelAfter_Nil: "panelAfter p [] = p"
  by (simp add: panelAfter_def)

lemma panelAfter_Cons:
  "panelAfter p (l # ls) =
     panelAfter (if looksLikePanelHeader l then trim (collapseWs l) else p) ls"
  by (cases "filter looksLikePanelHeader (rev ls)") (simp_all add: panelAfter_def)

lemma parseLoop_Cons:
  "parseLoop (l # ls) p [] = lineRecords l p @ parseLoop ls (panelAfter p [l]) []"
  using parseLoop_acc [of ls p "[withPanel (the (parseMeasurementLine l)) p]"]
  by (auto simp: lineRecords_def panelAfter_Cons panelAfter_Nil split: option.splits)

lemma parseLoop_append:
  "parseLoop (xs @ ys) p [] = parseLoop xs p [] @ parseLoop ys (panelAfter p xs) []"
proof (induction xs arbitrary: p)
  case Nil
  then show ?case by (simp add: panelAfter_Nil)
next
  case (Cons x xs)
  have "parseLoop ((x # xs) @ ys) p [] = parseLoop (x # (xs @ ys)) p []" by simp
  also have "\<dots> = lineRecords x p @ parseLoop (xs @ ys) (panelAfter p [x]) []"
    by (rule parseLoop_Cons)
  also have "parseLoop (xs @ ys) (panelAfter p [x]) [] =
     parseLoop xs (panelAfter p [x]) [] @ parseLoop ys (panelAfter (panelAfter p [x]) xs) []"
    by (rule Cons.IH)
  also have "panelAfter (panelAfter p [x]) xs = panelAfter p (x # xs)"
    by (simp add: panelAfter_Cons panelAfter_Nil)
  finally show ?case by (simp only: parseLoop_Cons [of x xs p] append_assoc)
qed

lemma parseLoop_single: "parseLoop [l] p [] = lineRecords l p"
  by (simp add: lineRecords_def split: option.splits)

lemma parseLoop_by_index:
  "parseLoop ls p [] =
     concat (map (\<lambda>i. lineRecords (ls ! i) (panelAfter p (take i ls))) [0..<length ls])"
proof (induction ls rule: rev_induct)
  case Nil
  then show ?case by simp
next
  case (snoc l ls)
  define F where "F = (\<lambda>i. lineRecords ((ls @ [l]) ! i) (panelAfter p (take i (ls @ [l]))))"
  define G where "G = (\<lambda>i. lineRecords (ls ! i) (panelAfter p (take i ls)))"
  have m: "map F [0..<length ls] = map G [0..<length ls]"
    unfolding F_def G_def by (rule map_cong) (auto simp: nth_append)
  have last: "F (length ls) = lineRecords l (panelAfter p ls)"
    unfolding F_def by simp
  have "parseLoop (ls @ [l]) p [] = parseLoop ls p [] @ lineRecords l (panelAfter p ls)"
    by (simp only: parseLoop_append parseLoop_single)
  also have "parseLoop ls p [] = concat (map G [0..<length ls])"
    unfolding G_def by (rule snoc.IH)
  also have "concat (map G [0..<length ls]) @ lineRecords l (panelAfter p ls) =
      concat (map F [0..<length (ls @ [l])])"
    by (simp add: m [symmetric] last)
  finally show ?case unfolding F_def .
qed

lemma withPanel_sel:
  "key (withPanel m q) = key m" "name (withPanel m q) = name m"
  "mvalue (withPanel m q) = mvalue m" "unit (withPanel m q) = unit m"
  "refLow (withPanel m q) = refLow m" "refHigh (withPanel m q) = refHigh m"
  "refText (withPanel m q) = refText m" "flag (withPanel m q) = flag m"
  "rawLine (withPanel m q) = rawLine m" "panel (withPanel m q) = q"
  by (simp_all add: withPanel_def measurement.defs panelMeasurement.defs)

lemma parseMeasurementLine_Some:
  assumes "parseMeasurementLine l = Some m"
  shows "key m = normalizeKey (name m)" and "mvalue m \<noteq> NaN" and "name m \<noteq> []"
  using assms
  by (auto simp: parseMeasurementLine_def Let_def split: if_splits list.splits prod.splits)

lemma parseLoop_mem:
  assumes "m \<in> set (parseLoop ls p [])"
  shows "\<exists>i m0. i < length ls \<and> \<not> looksLikePanelHeader (ls ! i) \<and>
           parseMeasurementLine (ls ! i) = Some m0 \<and>
           m = withPanel m0 (panelAfter p (take i ls))"
proof -
  from assms obtain i where i: "i < length ls"
      and m: "m \<in> set (lineRecords (ls ! i) (panelAfter p (take i ls)))"
    by (subst (asm) parseLoop_by_index) auto
  show ?thesis
  proof (cases "parseMeasurementLine (ls ! i)")
    case None
    then show ?thesis using m by (simp add: lineRecords_def split: if_splits)
  next
    case (Some m0)
    then have "\<not> looksLikePanelHeader (ls ! i)" "m = withPanel m0 (panelAfter p (take i ls))"
      using m by (simp_all add: lineRecords_def split: if_splits)
    then show ?thesis using i Some by blast
  qed
qed

lemma splitSpace_nonempty: "splitSpace s \<noteq> []"
  by (cases s) (auto split: list.splits)

lemma splitSpace_hd: "hd (splitSpace s) = takeWhile (\<lambda>c. c \<noteq> CHR '' '') s"
  using splitSpace_nonempty by (induction s) (auto split: list.splits)

section \<open>The cases of the measurement-line parser\<close>

lemma digit_not_space: "isDigit c \<Longrightarrow> \<not> isSpace c"
  by (auto simp: isDigit_def isSpace_def)

lemma trim_Nil: "trim [] = []"
  by (simp add: trim_def stripBoth_def)

lemma valueSegment_trimmed:
  assumes d: "list_ex isDigit (trim x)"
  shows "trim (dropWhile (\<lambda>c. \<not> isDigit c) (trim x)) = dropWhile (\<lambda>c. \<not> isDigit c) (trim x)"
proof -
  let ?s = "trim x"
  let ?a = "dropWhile (\<lambda>c. \<not> isDigit c) ?s"
  have ne: "?a \<noteq> []" using d by (auto simp: list_ex_iff dropWhile_eq_Nil_conv)
  then have sne: "?s \<noteq> []" by auto
  have "isDigit (hd ?a)" using hd_dropWhile [OF ne] by simp
  then have h: "\<not> isSpace (hd ?a)" by (rule digit_not_space)
  have "?s = takeWhile (\<lambda>c. \<not> isDigit c) ?s @ ?a" by simp
  then have "last ?s = last ?a" using ne by (metis last_appendR)
  moreover have "\<not> isSpace (last ?s)" using sne stripBoth_last unfolding trim_def by blast
  ultimately have l: "\<not> isSpace (last ?a)" by simp
  show ?thesis unfolding trim_def [of ?a] using h l by (intro stripBoth_id) simp
qed

lemma parseMeasurementLine_cases:
  fixes line
  defines "s \<equiv> trim (collapseWs line)"
  shows "parseMeasurementLine line =
     (if \<not> list_ex isDigit s \<or> nameText s = [] \<or> jsNumber (firstToken s) = NaN then None
      else let (unitTokens, refTokens) =
                 splitUnitRef (tl (splitSpace (dropWhile (\<lambda>c. \<not> isDigit c) s))) [] [];
               (lo, hi, txt) = parseRef (orNull (trim (joinSpace refTokens)))
           in Some \<lparr> key = normalizeKey (nameText s), name = nameText s,
                     mvalue = jsNumber (firstToken s),
                     unit = orNull (trim (joinSpace unitTokens)),
                     refLow = lo, refHigh = hi, refText = txt,
                     flag = computeFlag (JNumber (jsNumber (firstToken s))) (numberOrNull lo)
                              (numberOrNull hi) (stringOrNull txt),
                     rawLine = s \<rparr>)"
proof (cases "list_ex isDigit s")
  case False
  then show ?thesis by (simp add: parseMeasurementLine_def s_def [symmetric] Let_def)
next
  case True
  then have sne: "s \<noteq> []" by auto
  let ?a = "dropWhile (\<lambda>c. \<not> isDigit c) s"
  have tk: "take (length (takeWhile (\<lambda>c. \<not> isDigit c) s)) s = takeWhile (\<lambda>c. \<not> isDigit c) s"
    by (rule takeWhile_eq_take [symmetric])
  have dr: "drop (length (takeWhile (\<lambda>c. \<not> isDigit c) s)) s = ?a"
    by (rule dropWhile_eq_drop [symmetric])
  have tr: "trim ?a = ?a" using True unfolding s_def by (rule valueSegment_trimmed)
  obtain t0 ts where sp: "splitSpace ?a = t0 # ts"
    using splitSpace_nonempty [of ?a] by (cases "splitSpace ?a") auto
  have t0: "t0 = firstToken s"
    using splitSpace_hd [of ?a] sp by (simp add: firstToken_def)
  show ?thesis
    unfolding parseMeasurementLine_def s_def [symmetric] Let_def tk dr tr sp
    using True sne by (simp add: nameText_def t0 split: prod.splits)
qed

section \<open>The patterns of the timestamp extractor\<close>













section \<open>The claims\<close>

subsection \<open>The line "Page 1 of 3"\<close>

lemma page_line_parse:
  "parseMeasurementLine ''Page 1 of 3'' =
     Some \<lparr> key = ''page'', name = ''Page'', mvalue = Fin 1, unit = Some ''of'',
            refLow = None, refHigh = None, refText = Some ''3'', flag = None,
            rawLine = ''Page 1 of 3'' \<rparr>"
  by code_simp

lemma page_line_no_header: "\<not> looksLikePanelHeader ''Page 1 of 3''"
  by code_simp

text \<open>
  Claim C1, as stated: a text containing the line \<open>Page 1 of 3\<close> gets no record
  for that line. It fails: the text that is this line alone gets one record, for the
  parser reads \<open>Page\<close> as the name, \<open>1\<close> as the value, \<open>of\<close> as the unit and the
  trailing \<open>3\<close> as the reference text.
\<close>

theorem page_line_counterexample:
  "parseReportText ''Page 1 of 3'' =
     [\<lparr> key = ''page'', name = ''Page'', mvalue = Fin 1, unit = Some ''of'',
        refLow = None, refHigh = None, refText = Some ''3'', flag = None,
        rawLine = ''Page 1 of 3'', panel = ''General'' \<rparr>]"
  by code_simp

text \<open>
  Claim C1, amended: for every text whose lines (trimmed, the empty ones dropped)
  contain the line \<open>Page 1 of 3\<close>, the output has exactly one record for that line
  (key \<open>page\<close>, name \<open>Page\<close>, value 1, unit \<open>of\<close>, reference text \<open>3\<close>, no bounds, no
  flag, the panel in force there), between the records of the lines before it and the
  records of the lines after it; and these are the records the other lines give without
  that line.
\<close>

theorem page_line_record:
  "reportLines t = xs @ ''Page 1 of 3'' # ys \<Longrightarrow>
     parseReportText t =
       parseLoop xs ''General'' [] @
       \<lparr> key = ''page'', name = ''Page'', mvalue = Fin 1, unit = Some ''of'',
         refLow = None, refHigh = None, refText = Some ''3'', flag = None,
         rawLine = ''Page 1 of 3'', panel = panelAfter ''General'' xs \<rparr> #
       parseLoop ys (panelAfter ''General'' xs) [] \<and>
     parseLoop (xs @ ys) ''General'' [] =
       parseLoop xs ''General'' [] @ parseLoop ys (panelAfter ''General'' xs) []"
proof -
  assume ls: "reportLines t = xs @ ''Page 1 of 3'' # ys"
  let ?q = "panelAfter ''General'' xs"
  have rec: "lineRecords ''Page 1 of 3'' ?q =
      [\<lparr> key = ''page'', name = ''Page'', mvalue = Fin 1, unit = Some ''of'',
         refLow = None, refHigh = None, refText = Some ''3'', flag = None,
         rawLine = ''Page 1 of 3'', panel = ?q \<rparr>]"
    unfolding lineRecords_def page_line_parse
    using page_line_no_header
    by (simp add: withPanel_def measurement.defs panelMeasurement.defs)
  have same: "panelAfter ?q [''Page 1 of 3''] = ?q"
    using page_line_no_header by (simp add: panelAfter_Cons panelAfter_Nil)
  have "parseReportText t = parseLoop (xs @ ''Page 1 of 3'' # ys) ''General'' []"
    by (simp only: parseReportText_def ls)
  also have "\<dots> = parseLoop xs ''General'' [] @ parseLoop (''Page 1 of 3'' # ys) ?q []"
    by (rule parseLoop_append)
  also have "parseLoop (''Page 1 of 3'' # ys) ?q [] =
      lineRecords ''Page 1 of 3'' ?q @ parseLoop ys ?q []"
    by (simp only: parseLoop_Cons same)
  finally show ?thesis
    by (simp only: rec parseLoop_append append_Cons append_Nil simp_thms)
qed

theorem page_line_record_witness:
  "reportLines (''LIPID PROFILE'' @ [CHR 0x0A] @ ''Page 1 of 3'' @ [CHR 0x0A] @ ''HDL 40'') =
     [''LIPID PROFILE''] @ ''Page 1 of 3'' # [''HDL 40''] \<and>
   parseReportText (''LIPID PROFILE'' @ [CHR 0x0A] @ ''Page 1 of 3'' @ [CHR 0x0A] @ ''HDL 40'') =
     parseLoop [''LIPID PROFILE''] ''General'' [] @
     \<lparr> key = ''page'', name = ''Page'', mvalue = Fin 1, unit = Some ''of'',
       refLow = None, refHigh = None, refText = Some ''3'', flag = None,
       rawLine = ''Page 1 of 3'', panel = panelAfter ''General'' [''LIPID PROFILE''] \<rparr> #
     parseLoop [''HDL 40''] (panelAfter ''General'' [''LIPID PROFILE'']) []"
proof -
  have h: "reportLines (''LIPID PROFILE'' @ [CHR 0x0A] @ ''Page 1 of 3'' @ [CHR 0x0A] @ ''HDL 40'') =
     [''LIPID PROFILE''] @ ''Page 1 of 3'' # [''HDL 40'']"
    by code_simp
  show ?thesis using h page_line_record [OF h] by blast
qed

subsection \<open>The line classifier\<close>

text \<open>
  Claim C2, as stated: a trimmed line is a header exactly when it is not empty, has 4
  to 45 characters, has no digit and has at least \<open>min(8, floor(length * 0.5))\<close>
  uppercase letters. It fails at \<open>ABcde\<close>: 5 characters, 2 capitals, and
  \<open>floor(2.5) = 2\<close>, but the code compares with \<open>2.5\<close> and says no.
\<close>

theorem looksLikePanelHeader_floor_counterexample:
  "\<not> (looksLikePanelHeader ''ABcde'' \<longleftrightarrow>
        ''ABcde'' \<noteq> [] \<and> 4 \<le> length ''ABcde'' \<and> length ''ABcde'' \<le> 45 \<and>
        \<not> list_ex isDigit ''ABcde'' \<and>
        min 8 (length ''ABcde'' div 2) \<le> length (filter isUpperAZ ''ABcde''))"
  by code_simp

text \<open>
  Claim C2, amended: a line is classified as a header exactly when, trimmed, it is
  not empty, has at least 4 and at most 45 characters, has no digit \<open>0-9\<close>, and its
  count of capitals \<open>A-Z\<close> is at least \<open>min(8, length * 0.5)\<close> with the half not
  rounded down, that is, twice the count is at least \<open>min(16, length)\<close>. A line that
  fails one of the first three conditions is no header.
\<close>

theorem looksLikePanelHeader_iff:
  "looksLikePanelHeader line \<longleftrightarrow>
     (let s = trim line
      in s \<noteq> [] \<and> 4 \<le> length s \<and> length s \<le> 45 \<and> \<not> list_ex isDigit s \<and>
         min 16 (length s) \<le> 2 * length (filter isUpperAZ s))"
proof -
  have a: "min 8 (rat_of_nat n * (1 / 2)) \<le> rat_of_nat c \<longleftrightarrow> min 16 n \<le> 2 * c" for n c :: nat
  proof -
    have "min 8 (rat_of_nat n * (1 / 2)) \<le> rat_of_nat c \<longleftrightarrow>
          rat_of_nat (min 16 n) \<le> rat_of_nat (2 * c)"
      by (auto simp: min_def)
    then show ?thesis by (simp only: of_nat_le_iff)
  qed
  show ?thesis
    by (cases "line = []") (auto simp: looksLikePanelHeader_def Let_def trim_Nil a)
qed

subsection \<open>The collection timestamp\<close>




subsection \<open>The key of a record\<close>

text \<open>
  Claim C4, as stated: the key of every record is a non-empty string. It fails: the
  line \<open>(Hb) 12\<close> has the name \<open>(Hb)\<close>, all of it a parenthetical, and its key is
  the empty string.
\<close>

theorem parseReportText_empty_key_counterexample:
  "parseReportText ''(Hb) 12'' =
     [\<lparr> key = [], name = ''(Hb)'', mvalue = Fin 12, unit = None, refLow = None,
        refHigh = None, refText = None, flag = None, rawLine = ''(Hb) 12'',
        panel = ''General'' \<rparr>]"
  by code_simp

text \<open>
  Claim C4, amended: for every text and every record of the output, the key is the
  normalized name (so a function of the name alone), all its characters are in
  \<open>[a-z0-9_]\<close>, and when it is not empty it neither starts nor ends with an
  underscore; it may be empty.
\<close>

theorem parseReportText_key:
  "\<forall>m \<in> set (parseReportText t).
     key m = normalizeKey (name m) \<and>
     (\<forall>c \<in> set (key m). isLowerAZ c \<or> isDigit c \<or> c = CHR ''_'') \<and>
     (key m \<noteq> [] \<longrightarrow> hd (key m) \<noteq> CHR ''_'' \<and> last (key m) \<noteq> CHR ''_'')"
proof
  fix m assume "m \<in> set (parseReportText t)"
  then obtain m0 q l where "parseMeasurementLine l = Some m0" "m = withPanel m0 q"
    unfolding parseReportText_def using parseLoop_mem by blast
  then have k: "key m = normalizeKey (name m)"
    using parseMeasurementLine_Some(1) by (simp add: withPanel_sel)
  have "\<forall>c \<in> set (key m). isLowerAZ c \<or> isDigit c \<or> c = CHR ''_''"
    unfolding k using normalizeKey_chars [of _ "name m"]
    by (auto simp: isKeyOrUnderscore_def isKeyChar_def)
  moreover have "key m \<noteq> [] \<longrightarrow> hd (key m) \<noteq> CHR ''_'' \<and> last (key m) \<noteq> CHR ''_''"
    unfolding k using normalizeKey_ends by blast
  ultimately show "key m = normalizeKey (name m) \<and>
     (\<forall>c \<in> set (key m). isLowerAZ c \<or> isDigit c \<or> c = CHR ''_'') \<and>
     (key m \<noteq> [] \<longrightarrow> hd (key m) \<noteq> CHR ''_'' \<and> last (key m) \<noteq> CHR ''_'')"
    using k by blast
qed

theorem parseReportText_key_witness:
  "parseReportText ''C-Reactive Protein (CRP) 28 mg/L'' \<noteq> [] \<and>
   key (hd (parseReportText ''C-Reactive Protein (CRP) 28 mg/L'')) =
     normalizeKey (name (hd (parseReportText ''C-Reactive Protein (CRP) 28 mg/L''))) \<and>
   key (hd (parseReportText ''C-Reactive Protein (CRP) 28 mg/L'')) = ''c_reactive_protein'' \<and>
   hd (key (hd (parseReportText ''C-Reactive Protein (CRP) 28 mg/L''))) \<noteq> CHR ''_'' \<and>
   last (key (hd (parseReportText ''C-Reactive Protein (CRP) 28 mg/L''))) \<noteq> CHR ''_''"
proof -
  let ?t = "''C-Reactive Protein (CRP) 28 mg/L''"
  have ne: "parseReportText ?t \<noteq> []" by code_simp
  have k: "key (hd (parseReportText ?t)) = ''c_reactive_protein''" by code_simp
  have kne: "key (hd (parseReportText ?t)) \<noteq> []" unfolding k by simp
  have "hd (parseReportText ?t) \<in> set (parseReportText ?t)" using ne by simp
  then show ?thesis using ne k kne parseReportText_key [of ?t] by blast
qed

subsection \<open>The flag computer\<close>

text \<open>
  Claim C5, as stated, ends: a value exactly equal to \<open>refLow\<close> or \<open>refHigh\<close> never
  flags. It fails when the bounds are the wrong way round, which nothing forbids: the
  value 5 with \<open>refLow = 5\<close> and \<open>refHigh = 3\<close> is flagged \<open>H\<close>.
\<close>

theorem computeFlag_equal_bound_counterexample:
  "computeFlag (JNumber (Fin 5)) (JNumber (Fin 5)) (JNumber (Fin 3)) JNull = Some H"
  by (simp add: computeFlag_def)

text \<open>
  Claim C5, amended: for every value, \<open>refLow\<close>, \<open>refHigh\<close> and \<open>refText\<close>: there is no
  flag when the value is not a Number or is \<open>NaN\<close>; the flag is \<open>L\<close> when \<open>refLow\<close> is a
  Number and the value is below it; otherwise \<open>H\<close> when \<open>refHigh\<close> is a Number and the
  value is above it; otherwise there is no flag. A value equal to \<open>refLow\<close> is never
  flagged \<open>L\<close> and a value equal to \<open>refHigh\<close> is never flagged \<open>H\<close> (so it has no flag
  unless it is beyond the other bound); and with neither bound a Number there is no
  flag, whatever \<open>refText\<close> is.
\<close>

theorem computeFlag_rule:
  "((\<forall>x. v \<noteq> JNumber x) \<or> v = JNumber NaN \<longrightarrow> computeFlag v lo hi rt = None) \<and>
   (jsLess x l \<longrightarrow> computeFlag (JNumber x) (JNumber l) hi rt = Some L) \<and>
   (x \<noteq> NaN \<and> \<not> (\<exists>l. lo = JNumber l \<and> jsLess x l) \<and> jsLess h x \<longrightarrow>
      computeFlag (JNumber x) lo (JNumber h) rt = Some H) \<and>
   (\<not> (\<exists>l. lo = JNumber l \<and> jsLess x l) \<and> \<not> (\<exists>h. hi = JNumber h \<and> jsLess h x) \<longrightarrow>
      computeFlag (JNumber x) lo hi rt = None) \<and>
   computeFlag (JNumber x) (JNumber x) hi rt \<noteq> Some L \<and>
   computeFlag (JNumber x) lo (JNumber x) rt \<noteq> Some H \<and>
   ((\<forall>l. lo \<noteq> JNumber l) \<and> (\<forall>h. hi \<noteq> JNumber h) \<longrightarrow> computeFlag v lo hi rt = None)"
proof -
  have irrefl: "\<not> jsLess x x" by (cases x) auto
  have nan: "jsLess x l \<Longrightarrow> x \<noteq> NaN" by (cases x) auto
  show ?thesis
    using nan by (auto simp: computeFlag_def irrefl split: jsval.splits)
qed

theorem computeFlag_rule_witness:
  "computeFlag JUndefined (JNumber (Fin 14)) (JNumber (Fin 18)) JNull = None \<and>
   computeFlag (JNumber (Fin 12)) (JNumber (Fin 14)) (JNumber (Fin 18)) JNull = Some L \<and>
   computeFlag (JNumber (Fin 20)) (JNumber (Fin 14)) (JNumber (Fin 18)) JNull = Some H \<and>
   computeFlag (JNumber (Fin 14)) (JNumber (Fin 14)) (JNumber (Fin 18)) JNull = None \<and>
   computeFlag (JNumber (Fin 28)) JNull JNull (JString ''<5.0'') = None"
proof -
  have 1: "computeFlag JUndefined (JNumber (Fin 14)) (JNumber (Fin 18)) JNull = None"
    using computeFlag_rule [where v = JUndefined and lo = "JNumber (Fin 14)" and hi = "JNumber (Fin 18)" and rt = JNull]
    by simp
  have 2: "computeFlag (JNumber (Fin 12)) (JNumber (Fin 14)) (JNumber (Fin 18)) JNull = Some L"
    using computeFlag_rule [where x = "Fin 12" and l = "Fin 14" and hi = "JNumber (Fin 18)" and rt = JNull]
    by simp
  have 3: "computeFlag (JNumber (Fin 20)) (JNumber (Fin 14)) (JNumber (Fin 18)) JNull = Some H"
    using computeFlag_rule [where x = "Fin 20" and lo = "JNumber (Fin 14)" and h = "Fin 18" and rt = JNull]
    by simp
  have 4: "computeFlag (JNumber (Fin 14)) (JNumber (Fin 14)) (JNumber (Fin 18)) JNull = None"
    using computeFlag_rule [where x = "Fin 14" and lo = "JNumber (Fin 14)" and hi = "JNumber (Fin 18)" and rt = JNull]
    by simp
  have 5: "computeFlag (JNumber (Fin 28)) JNull JNull (JString ''<5.0'') = None"
    using computeFlag_rule [where v = "JNumber (Fin 28)" and lo = JNull and hi = JNull and rt = "JString ''<5.0''"]
    by simp
  show ?thesis using 1 2 3 4 5 by simp
qed

subsection \<open>The worked example\<close>

text \<open>
  Claim C6: the line \<open>Haemoglobin (Hb) 12.3 gm/dL 14-18\<close> parses to the record with
  key \<open>haemoglobin\<close>, name \<open>Haemoglobin (Hb)\<close>, value 12.3 (the double of that
  literal), unit \<open>gm/dL\<close>, \<open>refLow\<close> 14, \<open>refHigh\<close> 18, no \<open>refText\<close> and the flag \<open>L\<close>.
\<close>

theorem haemoglobin_line:
  "parseMeasurementLine ''Haemoglobin (Hb) 12.3 gm/dL 14-18'' =
     Some \<lparr> key = ''haemoglobin'', name = ''Haemoglobin (Hb)'', mvalue = toDouble (123 / 10),
            unit = Some ''gm/dL'', refLow = Some (Fin 14), refHigh = Some (Fin 18),
            refText = None, flag = Some L,
            rawLine = ''Haemoglobin (Hb) 12.3 gm/dL 14-18'' \<rparr>"
  by code_simp

subsection \<open>Panels and order\<close>


subsection \<open>No record, and no fault\<close>

text \<open>
  Claim C8: the measurement-line parser gives no record exactly when the line
  (trimmed, white space collapsed) has no digit, or the text before its first digit is
  empty after trimming, or the first token from that digit on is not a numeric
  literal. In every other case it gives a record with that name, that value, the key
  of the name and the line. It is a total function: no case raises. The report parser
  gives the empty sequence on the empty text.
\<close>

theorem parseMeasurementLine_no_record:
  "(parseMeasurementLine line = None \<longleftrightarrow>
      (let s = trim (collapseWs line)
       in \<not> list_ex isDigit s \<or> nameText s = [] \<or> jsNumber (firstToken s) = NaN)) \<and>
   (parseMeasurementLine line \<noteq> None \<longrightarrow>
      (\<exists>m. parseMeasurementLine line = Some m \<and>
           name m = nameText (trim (collapseWs line)) \<and> name m \<noteq> [] \<and>
           mvalue m = jsNumber (firstToken (trim (collapseWs line))) \<and> mvalue m \<noteq> NaN \<and>
           key m = normalizeKey (name m) \<and> rawLine m = trim (collapseWs line))) \<and>
   parseReportText [] = []"
proof -
  have e: "parseReportText [] = []"
    by (simp add: parseReportText_def reportLines_def trim_Nil)
  show ?thesis
    unfolding parseMeasurementLine_cases [of line] Let_def
    using e by (auto split: prod.splits)
qed

theorem parseMeasurementLine_no_record_witness:
  "parseMeasurementLine ''see overleaf'' = None \<and>
   parseMeasurementLine ''12.3 gm/dL'' = None \<and>
   parseMeasurementLine ''HbA1c 5.6 %'' = None \<and>
   (\<exists>m. parseMeasurementLine ''Hb 12'' = Some m \<and> name m = ''Hb'' \<and> mvalue m = Fin 12)"
proof -
  have 1: "let s = trim (collapseWs ''see overleaf'')
     in \<not> list_ex isDigit s \<or> nameText s = [] \<or> jsNumber (firstToken s) = NaN"
    by code_simp
  have 2: "let s = trim (collapseWs ''12.3 gm/dL'')
     in \<not> list_ex isDigit s \<or> nameText s = [] \<or> jsNumber (firstToken s) = NaN"
    by code_simp
  have 3: "let s = trim (collapseWs ''HbA1c 5.6 %'')
     in \<not> list_ex isDigit s \<or> nameText s = [] \<or> jsNumber (firstToken s) = NaN"
    by code_simp
  have 4: "\<not> (let s = trim (collapseWs ''Hb 12'')
     in \<not> list_ex isDigit s \<or> nameText s = [] \<or> jsNumber (firstToken s) = NaN)"
    by code_simp
  have n: "nameText (trim (collapseWs ''Hb 12'')) = ''Hb''" by code_simp
  have v: "jsNumber (firstToken (trim (collapseWs ''Hb 12''))) = Fin 12" by code_simp
  have a: "parseMeasurementLine ''see overleaf'' = None"
    using 1 parseMeasurementLine_no_record [of "''see overleaf''"] by blast
  have b: "parseMeasurementLine ''12.3 gm/dL'' = None"
    using 2 parseMeasurementLine_no_record [of "''12.3 gm/dL''"] by blast
  have c: "parseMeasurementLine ''HbA1c 5.6 %'' = None"
    using 3 parseMeasurementLine_no_record [of "''HbA1c 5.6 %''"] by blast
  have "parseMeasurementLine ''Hb 12'' \<noteq> None"
    using 4 parseMeasurementLine_no_record [of "''Hb 12''"] by blast
  then have d: "\<exists>m. parseMeasurementLine ''Hb 12'' = Some m \<and> name m = ''Hb'' \<and> mvalue m = Fin 12"
    using parseMeasurementLine_no_record [of "''Hb 12''"] unfolding n v by blast
  show ?thesis using a b c d by blast
qed

subsection \<open>Idempotence of the key normalizer\<close>

text \<open>
  Claim C9: \<open>normalizeKey\<close> is idempotent. For every string \<open>x\<close>, normalizing the key
  of \<open>x\<close> again gives the key of \<open>x\<close>: one pass is already a fixed point.
\<close>

theorem normalizeKey_idempotent: "normalizeKey (normalizeKey x) = normalizeKey x"
proof -
  let ?Q = "\<lambda>c. \<not> isKeyChar c"
  let ?k = "normalizeKey x"
  have chars: "\<forall>c\<in>set ?k. isKeyOrUnderscore c" using normalizeKey_chars by blast
  have 1: "toLowerCase ?k = ?k"
    unfolding toLowerCase_def using chars keyish_lower by (simp add: map_idI)
  have 2: "removeParens ?k = ?k"
    using chars keyish_not_paren by (intro removeParens_none) blast
  have "singleRuns ?Q (CHR ''_'') ?k"
    unfolding normalizeKey_eq stripUnderscores_def
    by (intro singleRuns_stripBoth singleRuns_replaceRuns underscore_not_key)
  then have 3: "replaceRuns ?Q (CHR ''_'') ?k = ?k"
    using singleRuns_fix [of ?Q] underscore_not_key by blast
  have 4: "stripUnderscores ?k = ?k"
    unfolding normalizeKey_eq [of x] stripUnderscores_def by (rule stripBoth_idem)
  show ?thesis
    unfolding normalizeKey_eq [of ?k] 1 2 3 4 ..
qed

subsection \<open>The value of a record\<close>

text \<open>
  Claim C10: for every text and every record of the output, the value is a Number
  and is not \<open>NaN\<close>: a line whose value token is no numeric literal gives no record.
\<close>

theorem parseReportText_value_not_NaN: "\<forall>m \<in> set (parseReportText t). mvalue m \<noteq> NaN"
proof
  fix m assume "m \<in> set (parseReportText t)"
  then obtain m0 q l where "parseMeasurementLine l = Some m0" "m = withPanel m0 q"
    unfolding parseReportText_def using parseLoop_mem by blast
  then show "mvalue m \<noteq> NaN"
    using parseMeasurementLine_Some(2) by (simp add: withPanel_sel)
qed

theorem parseReportText_value_not_NaN_witness:
  "parseReportText ''Hb 12'' \<noteq> [] \<and> mvalue (hd (parseReportText ''Hb 12'')) \<noteq> NaN"
proof -
  have ne: "parseReportText ''Hb 12'' \<noteq> []" by code_simp
  then have "hd (parseReportText ''Hb 12'') \<in> set (parseReportText ''Hb 12'')" by simp
  then show ?thesis using ne parseReportText_value_not_NaN [of "''Hb 12''"] by blast
qed

end
